theory Spec2Isabelle
  imports Complex_Main
begin

section \<open>The Apex strategy monitor (src/server.js)\<close>

text \<open>
  The program keeps four module-level variables (\<open>strategyFleet\<close>,
  \<open>isFailoverTriggered\<close>, \<open>currentPnL\<close>, \<open>monitoringLoop\<close>) and
  mutates them from five functions and one timer callback. The embedding passes
  the variables around as a record and returns the updated record.

  JavaScript numbers are modelled as \<open>real\<close> (identifiers as \<open>int\<close>):
  rounding of IEEE doubles is not modelled. \<open>Math.random()\<close> is a read of the
  next element of a random source \<open>rnd :: nat \<Rightarrow> real\<close>; the number of
  draws made so far is the field \<open>randomCalls\<close>. The ECMAScript range of a
  draw, \<open>0 \<le> r < 1\<close>, is a hypothesis wherever a statement needs it.
\<close>

subsection \<open>Configuration constants (lines 14-15)\<close>

definition MAX_SUB_STRATEGIES :: int where
  "MAX_SUB_STRATEGIES = 450"

definition CRITICAL_LOSS_THRESHOLD_USD :: real where
  "CRITICAL_LOSS_THRESHOLD_USD = - 2000"

subsection \<open>Data\<close>

datatype strategy_status = HEALTHY | WARNING | CRITICAL

text \<open>The object literal of lines 63-70. The field \<open>id\<close> is named
  \<open>id_strategy\<close>, since \<open>id\<close> is the identity function of HOL.\<close>

record strategy =
  id_strategy :: int
  pnl :: real
  volatility :: real
  status :: strategy_status
  currentMultiplier :: real
  baseAllocation :: real

text \<open>The handle of \<open>setInterval\<close>: undefined until \<open>startMonitoring\<close>
  assigns it, running afterwards, cleared by \<open>clearInterval\<close>.\<close>

datatype timer = NotStarted | Running | Cleared

text \<open>The lines written to the console, with the values they interpolate
  (number formatting and the start-up date are left out).\<close>

datatype log_line =
    SystemStarted
  | SystemThreshold real
  | InitDone int
  | MonitorLine real nat
  | CriticalEventDetected
  | FailoverLoss real
  | ApiCallPreparing
  | FailoverSuccess int
  | Separator

text \<open>
  The module state. \<open>commitCalls\<close> is a trace added by the model: it records,
  with its two arguments, every execution of the commit step of
  \<open>triggerSmartContractFailover\<close>, that is, of the place (lines 42-45) where
  the transaction to the vault contract belongs. The source performs no call
  there, so nothing of the program reads the trace.
\<close>

record monitor =
  strategyFleet :: "strategy list"
  isFailoverTriggered :: bool
  currentPnL :: real
  monitoringLoop :: timer
  console :: "log_line list"
  randomCalls :: nat
  commitCalls :: "(int \<times> int) list"

type_synonym random_source = "nat \<Rightarrow> real"

text \<open>The values of the module variables when the script is loaded (lines 23-26).\<close>

definition initialState :: monitor where
  "initialState =
     \<lparr> strategyFleet = [], isFailoverTriggered = False, currentPnL = 0,
       monitoringLoop = NotStarted, console = [], randomCalls = 0, commitCalls = [] \<rparr>"

subsection \<open>triggerSmartContractFailover (lines 35-53)\<close>

text \<open>\<open>clearInterval\<close> stops a running timer and ignores any other handle.\<close>

fun clearInterval :: "timer \<Rightarrow> timer" where
  "clearInterval Running = Cleared"
| "clearInterval t = t"

text \<open>The function is \<open>async\<close> but holds no \<open>await\<close>: its body runs to the
  end within the call.\<close>

definition triggerSmartContractFailover :: "int \<Rightarrow> int \<Rightarrow> monitor \<Rightarrow> monitor" where
  "triggerSmartContractFailover failingStrategyId newStrategyId s =
     (if isFailoverTriggered s then s
      else s\<lparr> console := console s @
                  [CriticalEventDetected, FailoverLoss (currentPnL s), ApiCallPreparing,
                   FailoverSuccess newStrategyId, Separator],
               commitCalls := commitCalls s @ [(failingStrategyId, newStrategyId)],
               isFailoverTriggered := True,
               monitoringLoop := clearInterval (monitoringLoop s) \<rparr>)"

subsection \<open>initStrategyFleet (lines 61-73)\<close>

definition newStrategy :: "int \<Rightarrow> real \<Rightarrow> strategy" where
  "newStrategy i r =
     \<lparr> id_strategy = i, pnl = 0, volatility = r * 0.05 + 0.01, status = HEALTHY,
       currentMultiplier = 1.0, baseAllocation = 1000 \<rparr>"

text \<open>The \<open>for\<close> loop of line 62, with its bound as the parameter \<open>n\<close>.\<close>

function initLoop :: "random_source \<Rightarrow> int \<Rightarrow> int \<Rightarrow> monitor \<Rightarrow> monitor" where
  "initLoop rnd i n s =
     (if i \<le> n
      then initLoop rnd (i + 1) n
             (s\<lparr> strategyFleet := strategyFleet s @ [newStrategy i (rnd (randomCalls s))],
                randomCalls := Suc (randomCalls s) \<rparr>)
      else s)"
  by pat_completeness auto
termination
  by (relation "measure (\<lambda>(rnd, i, n, s). nat (n + 1 - i))") auto

declare initLoop.simps [simp del]

text \<open>The body of \<open>initStrategyFleet\<close> for a fleet size \<open>n\<close>; the source
  fixes \<open>n\<close> to \<open>MAX_SUB_STRATEGIES\<close>.\<close>

definition initStrategyFleetOf :: "int \<Rightarrow> random_source \<Rightarrow> monitor \<Rightarrow> monitor" where
  "initStrategyFleetOf n rnd s =
     (let s' = initLoop rnd 1 n s in s'\<lparr> console := console s' @ [InitDone n] \<rparr>)"


subsection \<open>calculateStrategyPerformance (lines 79-116)\<close>

text \<open>Lines 85-91: the random-walk change, and the further loss of the
  strategies 1 and 5. The result carries the index of the next draw.\<close>

definition pnlChange :: "random_source \<Rightarrow> nat \<Rightarrow> strategy \<Rightarrow> real" where
  "pnlChange rnd k st =
     (rnd k - 0.5) * volatility st * baseAllocation st * currentMultiplier st"

definition mutatePnl :: "random_source \<Rightarrow> nat \<Rightarrow> strategy \<Rightarrow> strategy \<times> nat" where
  "mutatePnl rnd k st =
     (let change = pnlChange rnd k st;
          st1 = st\<lparr> pnl := pnl st + change \<rparr>
      in if id_strategy st1 = 1 \<or> id_strategy st1 = 5
         then (st1\<lparr> pnl := pnl st1 - rnd (Suc k) * 20 \<rparr>, Suc (Suc k))
         else (st1, Suc k))"

text \<open>Lines 94-101: the status of a strategy from its pnl, and the count of
  critical strategies.\<close>

definition updateStatus :: "strategy \<Rightarrow> nat \<Rightarrow> strategy \<times> nat" where
  "updateStatus st criticalCount =
     (if pnl st < - 50 then (st\<lparr> status := CRITICAL \<rparr>, Suc criticalCount)
      else if pnl st < - 10 then (st\<lparr> status := WARNING \<rparr>, criticalCount)
      else (st\<lparr> status := HEALTHY \<rparr>, criticalCount))"

text \<open>The loop of lines 83-104 over the fleet, with the locals \<open>totalPnL\<close> and
  \<open>criticalCount\<close> as accumulators. It returns the fleet as mutated, the index
  of the next draw and the two locals.\<close>

fun performanceLoop ::
  "random_source \<Rightarrow> strategy list \<Rightarrow> nat \<Rightarrow> real \<Rightarrow> nat \<Rightarrow> strategy list \<times> nat \<times> real \<times> nat" where
  "performanceLoop rnd [] k totalPnL criticalCount = ([], k, totalPnL, criticalCount)"
| "performanceLoop rnd (st # rest) k totalPnL criticalCount =
     (case mutatePnl rnd k st of (st1, k1) \<Rightarrow>
      case updateStatus st1 criticalCount of (st2, criticalCount1) \<Rightarrow>
      case performanceLoop rnd rest k1 (totalPnL + pnl st2) criticalCount1 of
        (rest', k', totalPnL', criticalCount') \<Rightarrow> (st2 # rest', k', totalPnL', criticalCount'))"

text \<open>Lines 107-111: \<open>forEach\<close> writes the same multiplier into every strategy.\<close>

definition setMultiplier :: "real \<Rightarrow> strategy list \<Rightarrow> strategy list" where
  "setMultiplier m fleet = map (\<lambda>st. st\<lparr> currentMultiplier := m \<rparr>) fleet"

definition calculateStrategyPerformance :: "random_source \<Rightarrow> monitor \<Rightarrow> real \<times> monitor" where
  "calculateStrategyPerformance rnd s =
     (case performanceLoop rnd (strategyFleet s) (randomCalls s) 0 0 of
        (fleet, k, totalPnL, criticalCount) \<Rightarrow>
          (totalPnL,
           s\<lparr> strategyFleet :=
                 (if totalPnL < - 500 then setMultiplier 0.8 fleet else setMultiplier 1.0 fleet),
              randomCalls := k,
              console := console s @ [MonitorLine totalPnL criticalCount] \<rparr>))"

subsection \<open>checkForCriticalLoss (lines 122-127)\<close>

definition checkForCriticalLoss :: "real \<Rightarrow> monitor \<Rightarrow> monitor" where
  "checkForCriticalLoss totalPnL s =
     (if totalPnL \<le> CRITICAL_LOSS_THRESHOLD_USD
      then triggerSmartContractFailover 1 450 s
      else s)"

subsection \<open>startMonitoring and the timer (lines 131-147)\<close>

text \<open>The callback given to \<open>setInterval\<close> (lines 138-143).\<close>

definition monitoringTick :: "random_source \<Rightarrow> monitor \<Rightarrow> monitor" where
  "monitoringTick rnd s =
     (if \<not> isFailoverTriggered s
      then (case calculateStrategyPerformance rnd s of
              (totalPnL, s1) \<Rightarrow>
                (let s2 = s1\<lparr> currentPnL := totalPnL \<rparr>
                 in checkForCriticalLoss (currentPnL s2) s2))
      else s)"

definition startMonitoringOf :: "int \<Rightarrow> random_source \<Rightarrow> monitor \<Rightarrow> monitor" where
  "startMonitoringOf n rnd s =
     (let s1 = s\<lparr> console := console s @
                     [SystemStarted, SystemThreshold CRITICAL_LOSS_THRESHOLD_USD] \<rparr>;
          s2 = initStrategyFleetOf n rnd s1
      in s2\<lparr> monitoringLoop := Running \<rparr>)"

definition startMonitoring :: "random_source \<Rightarrow> monitor \<Rightarrow> monitor" where
  "startMonitoring = startMonitoringOf MAX_SUB_STRATEGIES"

text \<open>One period of the timer: the callback runs while the timer is running.
  \<open>runTicks n\<close> is \<open>n\<close> periods, one after the other (the event loop runs
  one callback at a time), and \<open>process\<close> is the script: line 147, then
  \<open>n\<close> periods.\<close>

definition timerFires :: "random_source \<Rightarrow> monitor \<Rightarrow> monitor" where
  "timerFires rnd s = (if monitoringLoop s = Running then monitoringTick rnd s else s)"

fun runTicks :: "random_source \<Rightarrow> nat \<Rightarrow> monitor \<Rightarrow> monitor" where
  "runTicks rnd 0 s = s"
| "runTicks rnd (Suc n) s = runTicks rnd n (timerFires rnd s)"

definition process :: "random_source \<Rightarrow> nat \<Rightarrow> monitor" where
  "process rnd n = runTicks rnd n (startMonitoring rnd initialState)"

subsection \<open>Notions the properties are stated with\<close>

text \<open>The status a pnl calls for, in the words of the specification:
  below -50 critical, from -50 up to (not including) -10 warning, healthy
  otherwise.\<close>

definition statusOf :: "real \<Rightarrow> strategy_status" where
  "statusOf p =
     (if p < - 50 then CRITICAL
      else if - 50 \<le> p \<and> p < - 10 then WARNING
      else HEALTHY)"

text \<open>The further change of a strategy's pnl in one pass of the loop, beyond
  the random-walk change of line 85.\<close>

definition perturbation :: "random_source \<Rightarrow> nat \<Rightarrow> strategy \<Rightarrow> real" where
  "perturbation rnd k st = pnl (fst (mutatePnl rnd k st)) - (pnl st + pnlChange rnd k st)"

text \<open>What one pass of the loop body (lines 85-101) makes of a strategy.\<close>

definition passOver :: "random_source \<Rightarrow> nat \<Rightarrow> strategy \<Rightarrow> strategy" where
  "passOver rnd k st = fst (updateStatus (fst (mutatePnl rnd k st)) 0)"

text \<open>The number of draws one pass over a fleet makes, and the index of the
  first draw made for the strategy at position \<open>i\<close>.\<close>

fun drawsUsed :: "strategy list \<Rightarrow> nat" where
  "drawsUsed [] = 0"
| "drawsUsed (st # rest) =
     (if id_strategy st = 1 \<or> id_strategy st = 5 then 2 else 1) + drawsUsed rest"

definition drawIndex :: "monitor \<Rightarrow> nat \<Rightarrow> nat" where
  "drawIndex s i = randomCalls s + drawsUsed (take i (strategyFleet s))"

text \<open>The outputs of the random source that one pass over the fleet of \<open>s\<close>
  reads, in order.\<close>

definition drawsSeen :: "random_source \<Rightarrow> monitor \<Rightarrow> real list" where
  "drawsSeen rnd s =
     map (\<lambda>j. rnd (randomCalls s + j)) [0..<drawsUsed (strategyFleet s)]"

text \<open>A sequence of evaluations of the failover controller, one for each
  aggregate in the list.\<close>

fun evaluations :: "real list \<Rightarrow> monitor \<Rightarrow> monitor" where
  "evaluations [] s = s"
| "evaluations (p # ps) s = evaluations ps (checkForCriticalLoss p s)"

text \<open>The flag and the trace of commits go together: starting from the trace
  \<open>c0\<close>, nothing is added while the flag is down, and the one commit
  \<open>(1, 450)\<close> has been added once it is up.\<close>

definition commitInv :: "(int \<times> int) list \<Rightarrow> monitor \<Rightarrow> bool" where
  "commitInv c0 s =
     (if isFailoverTriggered s then commitCalls s = c0 @ [(1, 450)] else commitCalls s = c0)"

subsection \<open>Inputs for the examples\<close>

definition halfSource :: random_source where
  "halfSource k = 1 / 2"

definition zeroSource :: random_source where
  "zeroSource k = 0"

definition stepSource :: random_source where
  "stepSource k = (if k < 3 then 1 / 2 else 1 / 4)"

definition sampleStrategy :: "int \<Rightarrow> real \<Rightarrow> strategy" where
  "sampleStrategy i p =
     \<lparr> id_strategy = i, pnl = p, volatility = 0.02, status = HEALTHY,
       currentMultiplier = 1, baseAllocation = 1000 \<rparr>"

definition runningWith :: "strategy list \<Rightarrow> monitor" where
  "runningWith fleet = initialState\<lparr> strategyFleet := fleet, monitoringLoop := Running \<rparr>"

section \<open>Lemmas\<close>

subsection \<open>The loop of calculateStrategyPerformance\<close>

lemma updateStatus_fst: "fst (updateStatus st c) = st\<lparr> status := statusOf (pnl st) \<rparr>"
  by (simp add: updateStatus_def statusOf_def)

lemma updateStatus_snd:
  "snd (updateStatus st c) = (if statusOf (pnl st) = CRITICAL then Suc c else c)"
  by (simp add: updateStatus_def statusOf_def)

lemma mutatePnl_snd:
  "snd (mutatePnl rnd k st) = k + drawsUsed [st]"
  by (simp add: mutatePnl_def Let_def)

lemma mutatePnl_fields:
  "id_strategy (fst (mutatePnl rnd k st)) = id_strategy st"
  "volatility (fst (mutatePnl rnd k st)) = volatility st"
  "baseAllocation (fst (mutatePnl rnd k st)) = baseAllocation st"
  "currentMultiplier (fst (mutatePnl rnd k st)) = currentMultiplier st"
  by (simp_all add: mutatePnl_def Let_def)

lemma mutatePnl_pnl:
  "pnl (fst (mutatePnl rnd k st)) = pnl st + pnlChange rnd k st + perturbation rnd k st"
  by (simp add: perturbation_def)

lemma passOver_eq:
  "passOver rnd k st =
     (fst (mutatePnl rnd k st))\<lparr> status := statusOf (pnl (fst (mutatePnl rnd k st))) \<rparr>"
  by (simp add: passOver_def updateStatus_fst)

lemma performanceLoop_Cons:
  "performanceLoop rnd (st # rest) k t c =
     (passOver rnd k st # fst (performanceLoop rnd rest (k + drawsUsed [st])
          (t + pnl (passOver rnd k st))
          (if status (passOver rnd k st) = CRITICAL then Suc c else c)),
      snd (performanceLoop rnd rest (k + drawsUsed [st])
          (t + pnl (passOver rnd k st))
          (if status (passOver rnd k st) = CRITICAL then Suc c else c)))"
proof -
  obtain st1 k1 where m: "mutatePnl rnd k st = (st1, k1)"
    by (cases "mutatePnl rnd k st")
  obtain st2 c1 where u: "updateStatus st1 c = (st2, c1)"
    by (cases "updateStatus st1 c")
  from m have k1: "k1 = k + drawsUsed [st]"
    using mutatePnl_snd [of rnd k st] by simp
  from m have p: "passOver rnd k st = st1\<lparr> status := statusOf (pnl st1) \<rparr>"
    by (simp add: passOver_eq)
  from u have st2: "st2 = st1\<lparr> status := statusOf (pnl st1) \<rparr>"
    using updateStatus_fst [of st1 c] by simp
  from u have c1: "c1 = (if statusOf (pnl st1) = CRITICAL then Suc c else c)"
    using updateStatus_snd [of st1 c] by simp
  show ?thesis
    using m u by (simp add: p k1 st2 c1 split: prod.splits)
qed

lemma performanceLoop_length:
  "length (fst (performanceLoop rnd fleet k t c)) = length fleet"
  by (induction fleet arbitrary: k t c) (simp_all add: performanceLoop_Cons del: performanceLoop.simps(2))

lemma performanceLoop_draws:
  "fst (snd (performanceLoop rnd fleet k t c)) = k + drawsUsed fleet"
  by (induction fleet arbitrary: k t c) (simp_all add: performanceLoop_Cons del: performanceLoop.simps(2))

lemma performanceLoop_total:
  "fst (snd (snd (performanceLoop rnd fleet k t c)))
     = t + sum_list (map pnl (fst (performanceLoop rnd fleet k t c)))"
  by (induction fleet arbitrary: k t c) (simp_all add: performanceLoop_Cons del: performanceLoop.simps(2))

lemma performanceLoop_count:
  "snd (snd (snd (performanceLoop rnd fleet k t c)))
     = c + length (filter (\<lambda>st. status st = CRITICAL) (fst (performanceLoop rnd fleet k t c)))"
  by (induction fleet arbitrary: k t c) (simp_all add: performanceLoop_Cons del: performanceLoop.simps(2))

lemma performanceLoop_nth:
  "i < length fleet \<Longrightarrow>
     fst (performanceLoop rnd fleet k t c) ! i = passOver rnd (k + drawsUsed (take i fleet)) (fleet ! i)"
proof (induction fleet arbitrary: i k t c)
  case Nil
  then show ?case by simp
next
  case (Cons st rest)
  show ?case
  proof (cases i)
    case 0
    then show ?thesis by (simp add: performanceLoop_Cons del: performanceLoop.simps(2))
  next
    case (Suc j)
    with Cons.prems have "j < length rest" by simp
    from Cons.IH [OF this] Suc show ?thesis
      by (simp add: performanceLoop_Cons add.assoc del: performanceLoop.simps(2))
  qed
qed

lemma performanceLoop_status:
  "st \<in> set (fst (performanceLoop rnd fleet k t c)) \<Longrightarrow> status st = statusOf (pnl st)"
proof (induction fleet arbitrary: k t c)
  case Nil
  then show ?case by simp
next
  case (Cons a rest)
  then show ?case
    by (auto simp: performanceLoop_Cons passOver_eq simp del: performanceLoop.simps(2))
qed

lemma setMultiplier_fields:
  "length (setMultiplier m fleet) = length fleet"
  "map pnl (setMultiplier m fleet) = map pnl fleet"
  "map status (setMultiplier m fleet) = map status fleet"
  by (simp_all add: setMultiplier_def)

lemma setMultiplier_nth:
  "i < length fleet \<Longrightarrow> setMultiplier m fleet ! i = (fleet ! i)\<lparr> currentMultiplier := m \<rparr>"
  by (simp add: setMultiplier_def)

lemma setMultiplier_set:
  "st \<in> set (setMultiplier m fleet) \<Longrightarrow>
     currentMultiplier st = m \<and> (\<exists>st0 \<in> set fleet. pnl st = pnl st0 \<and> status st = status st0)"
  by (auto simp: setMultiplier_def)

lemma setMultiplier_critical:
  "length (filter (\<lambda>st. status st = CRITICAL) (setMultiplier m fleet))
     = length (filter (\<lambda>st. status st = CRITICAL) fleet)"
  by (induction fleet) (simp_all add: setMultiplier_def)

text \<open>calculateStrategyPerformance, with the results of its loop named.\<close>

lemma calculate_unfold:
  assumes "calculateStrategyPerformance rnd s = (t, s')"
  defines "fleet \<equiv> fst (performanceLoop rnd (strategyFleet s) (randomCalls s) 0 0)"
  shows "t = sum_list (map pnl fleet)"
    and "strategyFleet s' = setMultiplier (if t < - 500 then 0.8 else 1.0) fleet"
    and "randomCalls s' = randomCalls s + drawsUsed (strategyFleet s)"
    and "console s' = console s @
           [MonitorLine t (length (filter (\<lambda>st. status st = CRITICAL) fleet))]"
    and "isFailoverTriggered s' = isFailoverTriggered s"
    and "commitCalls s' = commitCalls s"
    and "monitoringLoop s' = monitoringLoop s"
    and "currentPnL s' = currentPnL s"
proof -
  obtain f k tt c where loop: "performanceLoop rnd (strategyFleet s) (randomCalls s) 0 0 = (f, k, tt, c)"
    by (cases "performanceLoop rnd (strategyFleet s) (randomCalls s) 0 0")
  have f: "fleet = f" by (simp add: fleet_def loop)
  have k: "k = randomCalls s + drawsUsed (strategyFleet s)"
    using performanceLoop_draws [of rnd "strategyFleet s" "randomCalls s" 0 0] by (simp add: loop)
  have tt: "tt = sum_list (map pnl f)"
    using performanceLoop_total [of rnd "strategyFleet s" "randomCalls s" 0 0] by (simp add: loop)
  have c: "c = length (filter (\<lambda>st. status st = CRITICAL) f)"
    using performanceLoop_count [of rnd "strategyFleet s" "randomCalls s" 0 0] by (simp add: loop)
  from assms(1) have t: "t = tt"
    and s': "s' = s\<lparr> strategyFleet :=
                       (if tt < - 500 then setMultiplier 0.8 f else setMultiplier 1.0 f),
                     randomCalls := k,
                     console := console s @ [MonitorLine tt c] \<rparr>"
    by (auto simp: calculateStrategyPerformance_def loop)
  show "t = sum_list (map pnl fleet)" by (simp add: t tt f)
  show "strategyFleet s' = setMultiplier (if t < - 500 then 0.8 else 1.0) fleet"
    by (simp add: s' t f)
  show "randomCalls s' = randomCalls s + drawsUsed (strategyFleet s)" by (simp add: s' k)
  show "console s' = console s @
           [MonitorLine t (length (filter (\<lambda>st. status st = CRITICAL) fleet))]"
    by (simp add: s' t c f)
  show "isFailoverTriggered s' = isFailoverTriggered s" by (simp add: s')
  show "commitCalls s' = commitCalls s" by (simp add: s')
  show "monitoringLoop s' = monitoringLoop s" by (simp add: s')
  show "currentPnL s' = currentPnL s" by (simp add: s')
qed

lemma calculate_nth:
  assumes "calculateStrategyPerformance rnd s = (t, s')" and "i < length (strategyFleet s)"
  shows "strategyFleet s' ! i =
           (passOver rnd (drawIndex s i) (strategyFleet s ! i))
             \<lparr> currentMultiplier := (if t < - 500 then 0.8 else 1.0) \<rparr>"
  using assms(2)
  by (simp add: calculate_unfold(2) [OF assms(1)] setMultiplier_nth performanceLoop_length
      performanceLoop_nth drawIndex_def)

lemma calculate_length:
  assumes "calculateStrategyPerformance rnd s = (t, s')"
  shows "length (strategyFleet s') = length (strategyFleet s)"
  by (simp add: calculate_unfold(2) [OF assms] setMultiplier_fields performanceLoop_length)

lemma passOver_fields:
  "id_strategy (passOver rnd k st) = id_strategy st"
  "volatility (passOver rnd k st) = volatility st"
  "baseAllocation (passOver rnd k st) = baseAllocation st"
  "currentMultiplier (passOver rnd k st) = currentMultiplier st"
  "pnl (passOver rnd k st) = pnl (fst (mutatePnl rnd k st))"
  by (simp_all add: passOver_eq mutatePnl_fields)

lemma perturbation_eq:
  "perturbation rnd k st =
     (if id_strategy st = 1 \<or> id_strategy st = 5 then - (rnd (Suc k) * 20) else 0)"
  by (simp add: perturbation_def mutatePnl_def Let_def)

lemma calculate_status:
  assumes "calculateStrategyPerformance rnd s = (t, s')" and "st \<in> set (strategyFleet s')"
  shows "status st = statusOf (pnl st)"
proof -
  from assms(2) obtain st0 where
    st0: "st0 \<in> set (fst (performanceLoop rnd (strategyFleet s) (randomCalls s) 0 0))"
      and eq: "pnl st = pnl st0" "status st = status st0"
    unfolding calculate_unfold(2) [OF assms(1)] by (blast dest: setMultiplier_set)
  from performanceLoop_status [OF st0] eq show ?thesis by simp
qed

subsection \<open>The loop reads only the draws it makes\<close>

lemma passOver_cong:
  assumes "r1 k1 = r2 k2" and "r1 (Suc k1) = r2 (Suc k2)"
  shows "passOver r1 k1 st = passOver r2 k2 st"
  using assms by (simp add: passOver_def mutatePnl_def pnlChange_def Let_def updateStatus_fst)

lemma passOver_cong1:
  assumes "r1 k1 = r2 k2" and "\<not> (id_strategy st = 1 \<or> id_strategy st = 5)"
  shows "passOver r1 k1 st = passOver r2 k2 st"
  using assms by (simp add: passOver_def mutatePnl_def pnlChange_def Let_def updateStatus_fst)

lemma performanceLoop_cong:
  assumes "\<And>j. j < drawsUsed fleet \<Longrightarrow> r1 (k1 + j) = r2 (k2 + j)"
  shows "fst (performanceLoop r1 fleet k1 t c) = fst (performanceLoop r2 fleet k2 t c)
         \<and> snd (snd (performanceLoop r1 fleet k1 t c)) = snd (snd (performanceLoop r2 fleet k2 t c))"
  using assms
proof (induction fleet arbitrary: k1 k2 t c)
  case Nil
  show ?case by simp
next
  case (Cons st rest)
  have head: "passOver r1 k1 st = passOver r2 k2 st"
  proof (cases "id_strategy st = 1 \<or> id_strategy st = 5")
    case True
    from Cons.prems [of 0] have a: "r1 k1 = r2 k2" by simp
    from True Cons.prems [of 1] have b: "r1 (Suc k1) = r2 (Suc k2)" by simp
    from a b show ?thesis by (rule passOver_cong)
  next
    case False
    from Cons.prems [of 0] have a: "r1 k1 = r2 k2" by simp
    from a False show ?thesis by (rule passOver_cong1)
  qed
  have rest: "r1 (k1 + drawsUsed [st] + j) = r2 (k2 + drawsUsed [st] + j)"
    if "j < drawsUsed rest" for j
    using Cons.prems [of "drawsUsed [st] + j"] that by (simp add: add.assoc)
  from Cons.IH [of "k1 + drawsUsed [st]" "k2 + drawsUsed [st]", OF rest]
  show ?case
    by (simp add: performanceLoop_Cons head del: performanceLoop.simps(2) drawsUsed.simps)
qed

subsection \<open>The failover flag\<close>

lemma trigger_when_triggered:
  "isFailoverTriggered s \<Longrightarrow> triggerSmartContractFailover a b s = s"
  by (simp add: triggerSmartContractFailover_def)

lemma check_when_triggered:
  "isFailoverTriggered s \<Longrightarrow> checkForCriticalLoss p s = s"
  by (simp add: checkForCriticalLoss_def trigger_when_triggered)

lemma tick_when_triggered:
  "isFailoverTriggered s \<Longrightarrow> monitoringTick rnd s = s"
  by (simp add: monitoringTick_def)

lemma timerFires_when_triggered:
  "isFailoverTriggered s \<Longrightarrow> timerFires rnd s = s"
  by (simp add: timerFires_def tick_when_triggered)

lemma runTicks_when_triggered:
  "isFailoverTriggered s \<Longrightarrow> runTicks rnd n s = s"
  by (induction n) (simp_all add: timerFires_when_triggered)

lemma evaluations_when_triggered:
  "isFailoverTriggered s \<Longrightarrow> evaluations ps s = s"
  by (induction ps) (simp_all add: check_when_triggered)

lemma check_armed:
  assumes "\<not> isFailoverTriggered s"
  shows "checkForCriticalLoss p s =
           (if p \<le> - 2000
            then s\<lparr> console := console s @
                        [CriticalEventDetected, FailoverLoss (currentPnL s), ApiCallPreparing,
                         FailoverSuccess 450, Separator],
                     commitCalls := commitCalls s @ [(1, 450)],
                     isFailoverTriggered := True,
                     monitoringLoop := clearInterval (monitoringLoop s) \<rparr>
            else s)"
  using assms
  by (simp add: checkForCriticalLoss_def triggerSmartContractFailover_def
      CRITICAL_LOSS_THRESHOLD_USD_def)

lemma check_fleet: "strategyFleet (checkForCriticalLoss p s) = strategyFleet s"
  by (simp add: checkForCriticalLoss_def triggerSmartContractFailover_def)

text \<open>A tick of an armed monitor is the aggregation followed by the check.\<close>

lemma tick_armed:
  assumes "\<not> isFailoverTriggered s" and "calculateStrategyPerformance rnd s = (t, s1)"
  shows "monitoringTick rnd s = checkForCriticalLoss t (s1\<lparr> currentPnL := t \<rparr>)"
  using assms by (simp add: monitoringTick_def)

subsection \<open>The loop of initStrategyFleet\<close>

lemma initLoop_frame:
  "isFailoverTriggered (initLoop rnd i n s) = isFailoverTriggered s
   \<and> commitCalls (initLoop rnd i n s) = commitCalls s
   \<and> currentPnL (initLoop rnd i n s) = currentPnL s
   \<and> monitoringLoop (initLoop rnd i n s) = monitoringLoop s
   \<and> console (initLoop rnd i n s) = console s"
proof (induction rnd i n s rule: initLoop.induct)
  case (1 rnd i n s)
  show ?case
  proof (cases "i \<le> n")
    case True
    with 1 show ?thesis by (subst (1 2 3 4 5) initLoop.simps) simp
  next
    case False
    then show ?thesis by (subst (1 2 3 4 5) initLoop.simps) simp
  qed
qed

lemma initLoop_fleet:
  "strategyFleet (initLoop rnd i n s) =
     strategyFleet s @ map (\<lambda>j. newStrategy j (rnd (randomCalls s + nat (j - i)))) [i..n]"
proof (induction rnd i n s rule: initLoop.induct)
  case (1 rnd i n s)
  show ?case
  proof (cases "i \<le> n")
    case True
    have shift: "map (\<lambda>j. newStrategy j (rnd (Suc (randomCalls s + nat (j - (i + 1)))))) [i + 1..n]
                 = map (\<lambda>j. newStrategy j (rnd (randomCalls s + nat (j - i)))) [i + 1..n]"
    proof (rule map_cong [OF refl])
      fix j assume "j \<in> set [i + 1..n]"
      then have "i + 1 \<le> j" by simp
      then have eq: "Suc (randomCalls s + nat (j - (i + 1))) = randomCalls s + nat (j - i)"
        by arith
      show "newStrategy j (rnd (Suc (randomCalls s + nat (j - (i + 1)))))
            = newStrategy j (rnd (randomCalls s + nat (j - i)))"
        by (simp only: eq)
    qed
    from True have up: "[i..n] = i # [i + 1..n]" by (simp add: upto_rec1)
    from True "1.IH" show ?thesis
      by (subst initLoop.simps) (simp add: shift up)
  next
    case False
    then show ?thesis by (subst initLoop.simps) simp
  qed
qed
lemma check_commitInv: "commitInv c0 s \<Longrightarrow> commitInv c0 (checkForCriticalLoss p s)"
  by (auto simp: commitInv_def checkForCriticalLoss_def triggerSmartContractFailover_def
      split: if_splits)

lemma tick_commitInv:
  assumes "commitInv c0 s"
  shows "commitInv c0 (monitoringTick rnd s)"
proof (cases "isFailoverTriggered s")
  case True
  with assms show ?thesis by (simp add: tick_when_triggered)
next
  case False
  obtain t s1 where c: "calculateStrategyPerformance rnd s = (t, s1)"
    by (cases "calculateStrategyPerformance rnd s")
  from assms have "commitInv c0 (s1\<lparr> currentPnL := t \<rparr>)"
    by (simp add: commitInv_def calculate_unfold(5,6) [OF c])
  then have "commitInv c0 (checkForCriticalLoss t (s1\<lparr> currentPnL := t \<rparr>))"
    by (rule check_commitInv)
  then show ?thesis by (simp add: tick_armed [OF False c])
qed

lemma timerFires_commitInv: "commitInv c0 s \<Longrightarrow> commitInv c0 (timerFires rnd s)"
  by (simp add: timerFires_def tick_commitInv)

lemma runTicks_commitInv: "commitInv c0 s \<Longrightarrow> commitInv c0 (runTicks rnd n s)"
  by (induction n arbitrary: s) (simp_all add: timerFires_commitInv)

lemma startMonitoringOf_frame:
  "isFailoverTriggered (startMonitoringOf n rnd s) = isFailoverTriggered s"
  "commitCalls (startMonitoringOf n rnd s) = commitCalls s"
  "monitoringLoop (startMonitoringOf n rnd s) = Running"
  by (simp_all add: startMonitoringOf_def initStrategyFleetOf_def Let_def initLoop_frame)

lemma process_commitInv: "commitInv [] (process rnd n)"
  unfolding process_def
  by (rule runTicks_commitInv)
     (simp add: commitInv_def startMonitoring_def startMonitoringOf_frame initialState_def)


lemma initStrategyFleetOf_fleet:
  "strategyFleet (initStrategyFleetOf n rnd s) =
     strategyFleet s @ map (\<lambda>j. newStrategy j (rnd (randomCalls s + nat (j - 1)))) [1..n]"
  by (simp add: initStrategyFleetOf_def Let_def initLoop_fleet)

lemma startMonitoringOf_fleet:
  "strategyFleet (startMonitoringOf n rnd s) = strategyFleet (initStrategyFleetOf n rnd s)"
  by (simp add: startMonitoringOf_def Let_def initStrategyFleetOf_fleet)


subsection \<open>The fleet after a tick\<close>

lemma calculate_pnl_nth:
  assumes "calculateStrategyPerformance rnd s = (t, s')" and "i < length (strategyFleet s)"
  shows "pnl (strategyFleet s' ! i) =
           pnl (strategyFleet s ! i) + pnlChange rnd (drawIndex s i) (strategyFleet s ! i)
             + perturbation rnd (drawIndex s i) (strategyFleet s ! i)"
    and "id_strategy (strategyFleet s' ! i) = id_strategy (strategyFleet s ! i)"
    and "volatility (strategyFleet s' ! i) = volatility (strategyFleet s ! i)"
    and "baseAllocation (strategyFleet s' ! i) = baseAllocation (strategyFleet s ! i)"
    and "currentMultiplier (strategyFleet s' ! i) = (if t < - 500 then 0.8 else 1.0)"
  by (simp_all add: calculate_nth [OF assms] passOver_fields mutatePnl_pnl)

lemma calculate_multiplier:
  assumes "calculateStrategyPerformance rnd s = (t, s')" and "st \<in> set (strategyFleet s')"
  shows "currentMultiplier st = (if t < - 500 then 0.8 else 1.0)"
  using assms(2) unfolding calculate_unfold(2) [OF assms(1)]
  by (blast dest: setMultiplier_set)

lemma tick_fleet_status:
  assumes "\<forall>st \<in> set (strategyFleet s). status st = statusOf (pnl st)"
  shows "\<forall>st \<in> set (strategyFleet (monitoringTick rnd s)). status st = statusOf (pnl st)"
proof (cases "isFailoverTriggered s")
  case True
  with assms show ?thesis by (simp add: tick_when_triggered)
next
  case False
  obtain t s1 where c: "calculateStrategyPerformance rnd s = (t, s1)"
    by (cases "calculateStrategyPerformance rnd s")
  have "strategyFleet (monitoringTick rnd s) = strategyFleet s1"
    by (simp add: tick_armed [OF False c] check_fleet)
  then show ?thesis by (simp add: calculate_status [OF c])
qed

lemma runTicks_fleet_status:
  assumes "\<forall>st \<in> set (strategyFleet s). status st = statusOf (pnl st)"
  shows "\<forall>st \<in> set (strategyFleet (runTicks rnd n s)). status st = statusOf (pnl st)"
  using assms
proof (induction n arbitrary: s)
  case 0
  then show ?case by simp
next
  case (Suc n)
  from Suc.prems have "\<forall>st \<in> set (strategyFleet (timerFires rnd s)). status st = statusOf (pnl st)"
    by (simp add: timerFires_def tick_fleet_status)
  from Suc.IH [OF this] show ?case by simp
qed

lemma runTicks_length:
  "length (strategyFleet (runTicks rnd n s)) = length (strategyFleet s)"
proof (induction n arbitrary: s)
  case 0
  show ?case by simp
next
  case (Suc n)
  have "length (strategyFleet (timerFires rnd s)) = length (strategyFleet s)"
  proof (cases "monitoringLoop s = Running \<and> \<not> isFailoverTriggered s")
    case True
    obtain t s1 where c: "calculateStrategyPerformance rnd s = (t, s1)"
      by (cases "calculateStrategyPerformance rnd s")
    from True have "timerFires rnd s = checkForCriticalLoss t (s1\<lparr> currentPnL := t \<rparr>)"
      by (simp add: timerFires_def tick_armed [OF _ c])
    then show ?thesis by (simp add: check_fleet calculate_length [OF c])
  next
    case False
    then have "timerFires rnd s = s"
      by (auto simp: timerFires_def tick_when_triggered)
    then show ?thesis by simp
  qed
  with Suc.IH [of "timerFires rnd s"] show ?case by simp
qed

lemma process_fleet_start:
  "strategyFleet (startMonitoring rnd initialState)
     = map (\<lambda>j. newStrategy j (rnd (nat (j - 1)))) [1..450]"
  by (simp add: startMonitoring_def startMonitoringOf_fleet initStrategyFleetOf_fleet
      initialState_def MAX_SUB_STRATEGIES_def)

lemma process_length: "length (strategyFleet (process rnd n)) = 450"
  by (simp add: process_def runTicks_length process_fleet_start)

subsection \<open>Unfolding for the examples\<close>

lemmas model_defs =
  calculateStrategyPerformance_def mutatePnl_def pnlChange_def updateStatus_def
  setMultiplier_def checkForCriticalLoss_def triggerSmartContractFailover_def
  monitoringTick_def timerFires_def CRITICAL_LOSS_THRESHOLD_USD_def Let_def

lemmas input_defs =
  runningWith_def initialState_def sampleStrategy_def halfSource_def zeroSource_def
  stepSource_def

section \<open>The properties\<close>

subsection \<open>The failover controller\<close>

text \<open>
  C1. The commit is made at most once in every execution of the process: after
  any number of timer periods from the start of the script, the trace of commits
  holds at most one entry. Once the flag \<open>isFailoverTriggered\<close> is up, any
  sequence of evaluations of the controller (and any direct call of
  \<open>triggerSmartContractFailover\<close>) adds no commit and leaves the flag up.
\<close>

theorem commit_at_most_once:
  "length (commitCalls (process rnd n)) \<le> 1 \<and>
   (isFailoverTriggered s \<longrightarrow>
      commitCalls (evaluations ps s) = commitCalls s \<and>
      isFailoverTriggered (evaluations ps s) \<and>
      commitCalls (triggerSmartContractFailover a b s) = commitCalls s \<and>
      isFailoverTriggered (triggerSmartContractFailover a b s))"
proof -
  have "commitInv [] (process rnd n)" by (rule process_commitInv)
  then have "length (commitCalls (process rnd n)) \<le> 1"
    by (simp add: commitInv_def split: if_splits)
  then show ?thesis
    by (simp add: evaluations_when_triggered trigger_when_triggered)
qed

theorem commit_at_most_once_witness:
  "length (commitCalls (process halfSource 7)) \<le> 1 \<and>
   isFailoverTriggered (checkForCriticalLoss (- 2500) (runningWith [])) \<and>
   commitCalls (checkForCriticalLoss (- 2500) (runningWith [])) = [(1, 450)] \<and>
   commitCalls (evaluations [- 2500, 3, - 9000] (checkForCriticalLoss (- 2500) (runningWith [])))
     = [(1, 450)] \<and>
   isFailoverTriggered
     (evaluations [- 2500, 3, - 9000] (checkForCriticalLoss (- 2500) (runningWith []))) \<and>
   commitCalls (triggerSmartContractFailover 7 8 (checkForCriticalLoss (- 2500) (runningWith [])))
     = [(1, 450)]"
  using commit_at_most_once [of halfSource 7 "checkForCriticalLoss (- 2500) (runningWith [])"
      "[- 2500, 3, - 9000]" 7 8]
  by (simp add: checkForCriticalLoss_def CRITICAL_LOSS_THRESHOLD_USD_def
      triggerSmartContractFailover_def runningWith_def initialState_def)

text \<open>
  C3. An evaluation of an armed controller fires exactly when the aggregate is
  at or below \<open>CRITICAL_LOSS_THRESHOLD_USD = -2000\<close>, the bound included: at
  or below it the flag goes up and the commit is recorded, at -2000 itself too;
  strictly above it the state is left as it was, with no commit. The same holds
  of a timer tick, for the aggregate its aggregation returns.
\<close>

theorem threshold_inclusive:
  assumes "\<not> isFailoverTriggered s"
  shows "CRITICAL_LOSS_THRESHOLD_USD = - 2000 \<and>
         (isFailoverTriggered (checkForCriticalLoss totalPnL s)
            \<longleftrightarrow> totalPnL \<le> CRITICAL_LOSS_THRESHOLD_USD) \<and>
         (totalPnL \<le> - 2000 \<longrightarrow>
            isFailoverTriggered (checkForCriticalLoss totalPnL s) \<and>
            commitCalls (checkForCriticalLoss totalPnL s) = commitCalls s @ [(1, 450)]) \<and>
         isFailoverTriggered (checkForCriticalLoss (- 2000) s) \<and>
         (- 2000 < totalPnL \<longrightarrow> checkForCriticalLoss totalPnL s = s) \<and>
         (calculateStrategyPerformance rnd s = (t, s1) \<longrightarrow>
            (isFailoverTriggered (monitoringTick rnd s) \<longleftrightarrow> t \<le> - 2000))"
proof -
  have tick: "isFailoverTriggered (monitoringTick rnd s) \<longleftrightarrow> t \<le> - 2000"
    if c: "calculateStrategyPerformance rnd s = (t, s1)"
  proof -
    from assms have "\<not> isFailoverTriggered (s1\<lparr> currentPnL := t \<rparr>)"
      by (simp add: calculate_unfold(5) [OF c])
    then show ?thesis
      by (simp add: tick_armed [OF assms c] check_armed)
  qed
  from assms show ?thesis
    by (simp add: check_armed CRITICAL_LOSS_THRESHOLD_USD_def tick)
qed

theorem threshold_inclusive_witness:
  "\<not> isFailoverTriggered (runningWith [sampleStrategy 2 (- 2000)]) \<and>
   isFailoverTriggered (checkForCriticalLoss (- 2000) (runningWith [sampleStrategy 2 (- 2000)])) \<and>
   commitCalls (checkForCriticalLoss (- 2000) (runningWith [sampleStrategy 2 (- 2000)]))
     = [(1, 450)] \<and>
   checkForCriticalLoss (- 1999) (runningWith [sampleStrategy 2 (- 2000)])
     = runningWith [sampleStrategy 2 (- 2000)] \<and>
   fst (calculateStrategyPerformance halfSource (runningWith [sampleStrategy 2 (- 2000)]))
     = - 2000 \<and>
   isFailoverTriggered (monitoringTick halfSource (runningWith [sampleStrategy 2 (- 2000)]))"
  using threshold_inclusive [of "runningWith [sampleStrategy 2 (- 2000)]" "- 2000" halfSource
      "- 2000" "snd (calculateStrategyPerformance halfSource (runningWith [sampleStrategy 2 (- 2000)]))"]
    threshold_inclusive [of "runningWith [sampleStrategy 2 (- 2000)]" "- 1999" halfSource
      "- 2000" "snd (calculateStrategyPerformance halfSource (runningWith [sampleStrategy 2 (- 2000)]))"]
  by (simp add: model_defs input_defs)

text \<open>
  C4. When an armed controller fires, the commit is made exactly once, with the
  failing strategy 1 and the backup strategy 450: one evaluation at or below
  the threshold adds the single entry \<open>(1, 450)\<close> to the trace, any number of
  timer periods from an armed state add that entry if the flag has gone up and
  nothing otherwise, and the trace of the whole process is \<open>[(1, 450)]\<close> or
  empty accordingly.
\<close>

theorem commit_arguments:
  assumes "\<not> isFailoverTriggered s"
  shows "(totalPnL \<le> CRITICAL_LOSS_THRESHOLD_USD \<longrightarrow>
            commitCalls (checkForCriticalLoss totalPnL s) = commitCalls s @ [(1, 450)]) \<and>
         commitCalls (runTicks rnd n s)
           = (if isFailoverTriggered (runTicks rnd n s) then commitCalls s @ [(1, 450)]
              else commitCalls s) \<and>
         commitCalls (process rnd n)
           = (if isFailoverTriggered (process rnd n) then [(1, 450)] else [])"
proof -
  from assms have "commitInv (commitCalls s) s" by (simp add: commitInv_def)
  then have "commitInv (commitCalls s) (runTicks rnd n s)" by (rule runTicks_commitInv)
  then have ticks: "commitCalls (runTicks rnd n s)
      = (if isFailoverTriggered (runTicks rnd n s) then commitCalls s @ [(1, 450)]
         else commitCalls s)"
    by (simp add: commitInv_def split: if_splits)
  have "commitInv [] (process rnd n)" by (rule process_commitInv)
  then have proc: "commitCalls (process rnd n)
      = (if isFailoverTriggered (process rnd n) then [(1, 450)] else [])"
    by (simp add: commitInv_def split: if_splits)
  from assms ticks proc show ?thesis
    by (simp add: check_armed CRITICAL_LOSS_THRESHOLD_USD_def)
qed

theorem commit_arguments_witness:
  "\<not> isFailoverTriggered (runningWith [sampleStrategy 1 (- 1500), sampleStrategy 2 (- 600)]) \<and>
   (- 2110 :: real) \<le> CRITICAL_LOSS_THRESHOLD_USD \<and>
   commitCalls (checkForCriticalLoss (- 2110)
       (runningWith [sampleStrategy 1 (- 1500), sampleStrategy 2 (- 600)])) = [(1, 450)] \<and>
   isFailoverTriggered
     (runTicks halfSource 2 (runningWith [sampleStrategy 1 (- 1500), sampleStrategy 2 (- 600)])) \<and>
   commitCalls
     (runTicks halfSource 2 (runningWith [sampleStrategy 1 (- 1500), sampleStrategy 2 (- 600)]))
     = [(1, 450)]"
  using commit_arguments [of "runningWith [sampleStrategy 1 (- 1500), sampleStrategy 2 (- 600)]"
      "- 2110" halfSource 2]
  by (simp add: model_defs input_defs numeral_2_eq_2)

subsection \<open>The aggregation\<close>

text \<open>
  C5. After the aggregation of a tick every strategy of the fleet has the status
  that \<open>statusOf\<close> gives for its pnl (critical below -50, warning from -50 up
  to -10, healthy otherwise), and the count written to the console with the
  aggregate is the number of strategies whose status is critical. Statuses that
  agree with the pnl before any number of timer periods agree after them, and
  they agree for each of the 450 strategies after any number of periods of the
  process.
\<close>

theorem status_follows_pnl:
  "(calculateStrategyPerformance rnd s = (totalPnL, s') \<longrightarrow>
      (\<forall>st \<in> set (strategyFleet s'). status st = statusOf (pnl st)) \<and>
      console s' = console s @
        [MonitorLine totalPnL
           (length (filter (\<lambda>st. status st = CRITICAL) (strategyFleet s')))]) \<and>
   ((\<forall>st \<in> set (strategyFleet s). status st = statusOf (pnl st)) \<longrightarrow>
      (\<forall>st \<in> set (strategyFleet (runTicks rnd n s)). status st = statusOf (pnl st))) \<and>
   (\<forall>st \<in> set (strategyFleet (process rnd n)). status st = statusOf (pnl st)) \<and>
   length (strategyFleet (process rnd n)) = 450"
proof (intro conjI impI)
  assume c: "calculateStrategyPerformance rnd s = (totalPnL, s')"
  show "\<forall>st \<in> set (strategyFleet s'). status st = statusOf (pnl st)"
    using calculate_status [OF c] by blast
  show "console s' = console s @
        [MonitorLine totalPnL
           (length (filter (\<lambda>st. status st = CRITICAL) (strategyFleet s')))]"
    by (simp add: calculate_unfold(2,4) [OF c] setMultiplier_critical)
next
  assume "\<forall>st \<in> set (strategyFleet s). status st = statusOf (pnl st)"
  then show "\<forall>st \<in> set (strategyFleet (runTicks rnd n s)). status st = statusOf (pnl st)"
    by (rule runTicks_fleet_status)
next
  have "\<forall>st \<in> set (strategyFleet (startMonitoring rnd initialState)).
          status st = statusOf (pnl st)"
    by (auto simp: process_fleet_start newStrategy_def statusOf_def)
  then show "\<forall>st \<in> set (strategyFleet (process rnd n)). status st = statusOf (pnl st)"
    unfolding process_def by (rule runTicks_fleet_status)
next
  show "length (strategyFleet (process rnd n)) = 450" by (rule process_length)
qed

theorem status_follows_pnl_witness:
  "fst (calculateStrategyPerformance halfSource
      (runningWith [sampleStrategy 1 (- 45), sampleStrategy 2 (- 20), sampleStrategy 3 7])) = - 68 \<and>
   map pnl (strategyFleet (snd (calculateStrategyPerformance halfSource
      (runningWith [sampleStrategy 1 (- 45), sampleStrategy 2 (- 20), sampleStrategy 3 7]))))
     = [- 55, - 20, 7] \<and>
   map status (strategyFleet (snd (calculateStrategyPerformance halfSource
      (runningWith [sampleStrategy 1 (- 45), sampleStrategy 2 (- 20), sampleStrategy 3 7]))))
     = [CRITICAL, WARNING, HEALTHY] \<and>
   map statusOf [- 55, - 20, 7] = [CRITICAL, WARNING, HEALTHY] \<and>
   console (snd (calculateStrategyPerformance halfSource
      (runningWith [sampleStrategy 1 (- 45), sampleStrategy 2 (- 20), sampleStrategy 3 7])))
     = [MonitorLine (- 68) 1] \<and>
   status (sampleStrategy 3 7) = statusOf (pnl (sampleStrategy 3 7)) \<and>
   map status (strategyFleet (runTicks halfSource 2 (runningWith [sampleStrategy 3 7])))
     = map statusOf (map pnl (strategyFleet (runTicks halfSource 2 (runningWith [sampleStrategy 3 7])))) \<and>
   length (strategyFleet (process halfSource 0)) = 450"
  using status_follows_pnl [of halfSource
      "runningWith [sampleStrategy 1 (- 45), sampleStrategy 2 (- 20), sampleStrategy 3 7]"
      "- 68"
      "snd (calculateStrategyPerformance halfSource
         (runningWith [sampleStrategy 1 (- 45), sampleStrategy 2 (- 20), sampleStrategy 3 7]))" 0]
    status_follows_pnl [of halfSource "runningWith [sampleStrategy 3 7]" 0
      "runningWith [sampleStrategy 3 7]" 2]
  by (simp add: model_defs input_defs statusOf_def numeral_2_eq_2)

text \<open>
  C6. After the aggregation of a tick every strategy carries the same
  multiplier, 0.8 if the aggregate of the tick is below -500 and 1.0 otherwise.
  The change of a pnl within the tick is scaled by the multiplier the strategy
  carried before the tick; the multiplier written by the tick scales the change
  of the next tick.
\<close>

theorem multiplier_policy:
  assumes "calculateStrategyPerformance rnd s = (totalPnL, s')"
  shows "(\<forall>st \<in> set (strategyFleet s').
            currentMultiplier st = (if totalPnL < - 500 then 0.8 else 1.0)) \<and>
         length (strategyFleet s') = length (strategyFleet s) \<and>
         (\<forall>i < length (strategyFleet s).
            pnl (strategyFleet s' ! i) =
              pnl (strategyFleet s ! i)
              + (rnd (drawIndex s i) - 0.5) * volatility (strategyFleet s ! i)
                  * baseAllocation (strategyFleet s ! i) * currentMultiplier (strategyFleet s ! i)
              - (if id_strategy (strategyFleet s ! i) = 1 \<or> id_strategy (strategyFleet s ! i) = 5
                 then rnd (Suc (drawIndex s i)) * 20 else 0)) \<and>
         (\<forall>i < length (strategyFleet s). \<forall>t2 s2.
            calculateStrategyPerformance rnd s' = (t2, s2) \<longrightarrow>
            pnl (strategyFleet s2 ! i) =
              pnl (strategyFleet s' ! i)
              + (rnd (drawIndex s' i) - 0.5) * volatility (strategyFleet s ! i)
                  * baseAllocation (strategyFleet s ! i) * (if totalPnL < - 500 then 0.8 else 1.0)
              - (if id_strategy (strategyFleet s ! i) = 1 \<or> id_strategy (strategyFleet s ! i) = 5
                 then rnd (Suc (drawIndex s' i)) * 20 else 0))"
proof (intro conjI allI impI)
  show "\<forall>st \<in> set (strategyFleet s').
          currentMultiplier st = (if totalPnL < - 500 then 0.8 else 1.0)"
    using calculate_multiplier [OF assms] by blast
  show len: "length (strategyFleet s') = length (strategyFleet s)"
    by (rule calculate_length [OF assms])
  fix i assume i: "i < length (strategyFleet s)"
  show "pnl (strategyFleet s' ! i) =
          pnl (strategyFleet s ! i)
          + (rnd (drawIndex s i) - 0.5) * volatility (strategyFleet s ! i)
              * baseAllocation (strategyFleet s ! i) * currentMultiplier (strategyFleet s ! i)
          - (if id_strategy (strategyFleet s ! i) = 1 \<or> id_strategy (strategyFleet s ! i) = 5
             then rnd (Suc (drawIndex s i)) * 20 else 0)"
    by (simp add: calculate_pnl_nth(1) [OF assms i] pnlChange_def perturbation_eq)
  fix t2 s2 assume next_tick: "calculateStrategyPerformance rnd s' = (t2, s2)"
  from i len have i': "i < length (strategyFleet s')" by simp
  show "pnl (strategyFleet s2 ! i) =
          pnl (strategyFleet s' ! i)
          + (rnd (drawIndex s' i) - 0.5) * volatility (strategyFleet s ! i)
              * baseAllocation (strategyFleet s ! i) * (if totalPnL < - 500 then 0.8 else 1.0)
          - (if id_strategy (strategyFleet s ! i) = 1 \<or> id_strategy (strategyFleet s ! i) = 5
             then rnd (Suc (drawIndex s' i)) * 20 else 0)"
    by (simp add: calculate_pnl_nth(1) [OF next_tick i'] pnlChange_def perturbation_eq
        calculate_pnl_nth(2-5) [OF assms i])
qed

theorem multiplier_policy_witness:
  "fst (calculateStrategyPerformance zeroSource
      (runningWith [sampleStrategy 1 (- 300), sampleStrategy 2 (- 300)])) = - 620 \<and>
   map currentMultiplier (strategyFleet (snd (calculateStrategyPerformance zeroSource
      (runningWith [sampleStrategy 1 (- 300), sampleStrategy 2 (- 300)])))) = [0.8, 0.8] \<and>
   map pnl (strategyFleet (snd (calculateStrategyPerformance zeroSource
      (runningWith [sampleStrategy 1 (- 300), sampleStrategy 2 (- 300)])))) = [- 310, - 310] \<and>
   map pnl (strategyFleet (snd (calculateStrategyPerformance zeroSource
      (snd (calculateStrategyPerformance zeroSource
         (runningWith [sampleStrategy 1 (- 300), sampleStrategy 2 (- 300)]))))))
     = [- 318, - 318] \<and>
   fst (calculateStrategyPerformance halfSource
      (runningWith [sampleStrategy 1 (- 45), sampleStrategy 2 (- 20)])) = - 75 \<and>
   map currentMultiplier (strategyFleet (snd (calculateStrategyPerformance halfSource
      (runningWith [sampleStrategy 1 (- 45), sampleStrategy 2 (- 20)])))) = [1, 1]"
  using multiplier_policy [of zeroSource
      "runningWith [sampleStrategy 1 (- 300), sampleStrategy 2 (- 300)]" "- 620"
      "snd (calculateStrategyPerformance zeroSource
         (runningWith [sampleStrategy 1 (- 300), sampleStrategy 2 (- 300)]))"]
    multiplier_policy [of halfSource
      "runningWith [sampleStrategy 1 (- 45), sampleStrategy 2 (- 20)]" "- 75"
      "snd (calculateStrategyPerformance halfSource
         (runningWith [sampleStrategy 1 (- 45), sampleStrategy 2 (- 20)]))"]
  by (simp add: model_defs input_defs)

text \<open>
  C7, counterexample. The specification has the further change of the
  strategies 1 and 5 strictly negative for every outcome of the random source.
  A source may draw 0, and then the further change of strategy 1 is 0: its pnl
  after the tick is its old pnl plus the random-walk change.
\<close>

theorem perturbation_zero_counterexample:
  "id_strategy (sampleStrategy 1 0) = 1 \<and>
   0 \<le> zeroSource 1 \<and> zeroSource 1 < 1 \<and>
   perturbation zeroSource 0 (sampleStrategy 1 0) = 0 \<and>
   \<not> perturbation zeroSource 0 (sampleStrategy 1 0) < 0 \<and>
   pnl (sampleStrategy 1 0) + pnlChange zeroSource 0 (sampleStrategy 1 0) = - 10 \<and>
   map pnl (strategyFleet (snd (calculateStrategyPerformance zeroSource
      (runningWith [sampleStrategy 1 0])))) = [- 10]"
  by (simp add: perturbation_def model_defs input_defs)

text \<open>
  C7, as amended. In every pass of the loop the strategies 1 and 5 receive,
  beyond the random-walk change, the further change \<open>- 20 * r\<close> for the next
  draw \<open>r\<close> of the random source: with \<open>0 \<le> r < 1\<close> it is above -20 and at
  most 0, and negative exactly when the draw is not 0. Every other strategy has
  no further change, and the pnl after a tick is the old pnl plus the two changes.
\<close>

theorem degrading_perturbation:
  "(id_strategy st = 1 \<or> id_strategy st = 5 \<longrightarrow>
      0 \<le> rnd (Suc k) \<and> rnd (Suc k) < 1 \<longrightarrow>
      perturbation rnd k st = - (20 * rnd (Suc k)) \<and>
      - 20 < perturbation rnd k st \<and> perturbation rnd k st \<le> 0 \<and>
      (perturbation rnd k st < 0 \<longleftrightarrow> rnd (Suc k) \<noteq> 0)) \<and>
   (id_strategy st \<noteq> 1 \<and> id_strategy st \<noteq> 5 \<longrightarrow> perturbation rnd k st = 0) \<and>
   (calculateStrategyPerformance rnd s = (t, s') \<and> i < length (strategyFleet s) \<longrightarrow>
      pnl (strategyFleet s' ! i) =
        pnl (strategyFleet s ! i) + pnlChange rnd (drawIndex s i) (strategyFleet s ! i)
          + perturbation rnd (drawIndex s i) (strategyFleet s ! i))"
proof (intro conjI impI)
  assume "id_strategy st = 1 \<or> id_strategy st = 5"
  then have p: "perturbation rnd k st = - (20 * rnd (Suc k))"
    by (simp add: perturbation_eq)
  assume r: "0 \<le> rnd (Suc k) \<and> rnd (Suc k) < 1"
  show "perturbation rnd k st = - (20 * rnd (Suc k))" by (rule p)
  from r show "- 20 < perturbation rnd k st" by (simp add: p)
  from r show "perturbation rnd k st \<le> 0" by (simp add: p)
  from r show "perturbation rnd k st < 0 \<longleftrightarrow> rnd (Suc k) \<noteq> 0" by (auto simp: p)
next
  assume "id_strategy st \<noteq> 1 \<and> id_strategy st \<noteq> 5"
  then show "perturbation rnd k st = 0" by (simp add: perturbation_eq)
next
  assume "calculateStrategyPerformance rnd s = (t, s') \<and> i < length (strategyFleet s)"
  then show "pnl (strategyFleet s' ! i) =
        pnl (strategyFleet s ! i) + pnlChange rnd (drawIndex s i) (strategyFleet s ! i)
          + perturbation rnd (drawIndex s i) (strategyFleet s ! i)"
    by (simp add: calculate_pnl_nth(1))
qed

theorem degrading_perturbation_witness:
  "id_strategy (sampleStrategy 5 0) = 5 \<and>
   0 \<le> halfSource (Suc 0) \<and> halfSource (Suc 0) < 1 \<and>
   perturbation halfSource 0 (sampleStrategy 5 0) = - 10 \<and>
   id_strategy (sampleStrategy 2 0) \<noteq> 1 \<and> id_strategy (sampleStrategy 2 0) \<noteq> 5 \<and>
   perturbation halfSource 0 (sampleStrategy 2 0) = 0 \<and>
   fst (calculateStrategyPerformance halfSource
      (runningWith [sampleStrategy 5 0, sampleStrategy 2 0])) = - 10 \<and>
   map pnl (strategyFleet (snd (calculateStrategyPerformance halfSource
      (runningWith [sampleStrategy 5 0, sampleStrategy 2 0])))) = [- 10, 0]"
  using degrading_perturbation [of "sampleStrategy 5 0" halfSource 0
      "runningWith [sampleStrategy 5 0, sampleStrategy 2 0]" "- 10"
      "snd (calculateStrategyPerformance halfSource
         (runningWith [sampleStrategy 5 0, sampleStrategy 2 0]))" 0]
    degrading_perturbation [of "sampleStrategy 2 0" halfSource 0
      "runningWith [sampleStrategy 5 0, sampleStrategy 2 0]" "- 10"
      "snd (calculateStrategyPerformance halfSource
         (runningWith [sampleStrategy 5 0, sampleStrategy 2 0]))" 0]
  by (simp add: perturbation_def model_defs input_defs)

subsection \<open>The initialization\<close>



subsection \<open>Determinism of a tick\<close>

text \<open>
  C9. One tick's pnl mutation and aggregation is a function of the fleet and of
  the outputs the random source gives during the tick: two runs from the same
  fleet that see the same sequence of draws return the same aggregate and leave
  the same fleet, whatever the sources give elsewhere and whatever the other
  variables of the module hold.
\<close>

theorem tick_deterministic:
  assumes "strategyFleet s1 = strategyFleet s2" and "drawsSeen r1 s1 = drawsSeen r2 s2"
  shows "fst (calculateStrategyPerformance r1 s1) = fst (calculateStrategyPerformance r2 s2) \<and>
         strategyFleet (snd (calculateStrategyPerformance r1 s1))
           = strategyFleet (snd (calculateStrategyPerformance r2 s2))"
proof -
  have draws: "r1 (randomCalls s1 + j) = r2 (randomCalls s2 + j)"
    if "j < drawsUsed (strategyFleet s2)" for j
  proof -
    from assms(2) have "map (\<lambda>j. r1 (randomCalls s1 + j)) [0..<drawsUsed (strategyFleet s2)]
        = map (\<lambda>j. r2 (randomCalls s2 + j)) [0..<drawsUsed (strategyFleet s2)]"
      by (simp add: drawsSeen_def assms(1))
    then have "\<forall>x \<in> set [0..<drawsUsed (strategyFleet s2)].
        r1 (randomCalls s1 + x) = r2 (randomCalls s2 + x)"
      by (simp only: map_eq_conv)
    with that show ?thesis by simp
  qed
  have loop: "fst (performanceLoop r1 (strategyFleet s2) (randomCalls s1) 0 0)
      = fst (performanceLoop r2 (strategyFleet s2) (randomCalls s2) 0 0)"
    using performanceLoop_cong [of "strategyFleet s2" r1 "randomCalls s1" r2 "randomCalls s2" 0 0]
      draws by blast
  obtain t1 s1' where c1: "calculateStrategyPerformance r1 s1 = (t1, s1')"
    by (cases "calculateStrategyPerformance r1 s1")
  obtain t2 s2' where c2: "calculateStrategyPerformance r2 s2 = (t2, s2')"
    by (cases "calculateStrategyPerformance r2 s2")
  have t: "t1 = t2"
    by (simp add: calculate_unfold(1) [OF c1] calculate_unfold(1) [OF c2] assms(1) loop)
  have "strategyFleet s1' = strategyFleet s2'"
    by (simp add: calculate_unfold(2) [OF c1] calculate_unfold(2) [OF c2] assms(1) loop t)
  with t show ?thesis by (simp add: c1 c2)
qed

theorem tick_deterministic_witness:
  "strategyFleet (runningWith [sampleStrategy 1 (- 45), sampleStrategy 2 (- 20)])
     = strategyFleet ((runningWith [sampleStrategy 1 (- 45), sampleStrategy 2 (- 20)])
         \<lparr> currentPnL := 12, randomCalls := 7 \<rparr>) \<and>
   drawsSeen stepSource (runningWith [sampleStrategy 1 (- 45), sampleStrategy 2 (- 20)])
     = [1 / 2, 1 / 2, 1 / 2] \<and>
   drawsSeen halfSource ((runningWith [sampleStrategy 1 (- 45), sampleStrategy 2 (- 20)])
         \<lparr> currentPnL := 12, randomCalls := 7 \<rparr>)
     = [1 / 2, 1 / 2, 1 / 2] \<and>
   stepSource 7 \<noteq> halfSource 7 \<and>
   fst (calculateStrategyPerformance stepSource
      (runningWith [sampleStrategy 1 (- 45), sampleStrategy 2 (- 20)])) = - 75 \<and>
   fst (calculateStrategyPerformance halfSource
      ((runningWith [sampleStrategy 1 (- 45), sampleStrategy 2 (- 20)])
         \<lparr> currentPnL := 12, randomCalls := 7 \<rparr>)) = - 75"
  using tick_deterministic [of "runningWith [sampleStrategy 1 (- 45), sampleStrategy 2 (- 20)]"
      "(runningWith [sampleStrategy 1 (- 45), sampleStrategy 2 (- 20)])
         \<lparr> currentPnL := 12, randomCalls := 7 \<rparr>" stepSource halfSource]
  by (simp add: drawsSeen_def model_defs input_defs upt_rec)

subsection \<open>After the failover\<close>

text \<open>
  C10. Once the flag is up, a timer tick changes nothing: the callback, a period
  of the timer and any number of periods return the state they were given, so
  no pnl, status or multiplier of the fleet changes and \<open>currentPnL\<close> is not
  computed again.
\<close>

theorem no_change_after_trigger:
  assumes "isFailoverTriggered s"
  shows "monitoringTick rnd s = s \<and> timerFires rnd s = s \<and> runTicks rnd n s = s \<and>
         strategyFleet (runTicks rnd n s) = strategyFleet s \<and>
         currentPnL (runTicks rnd n s) = currentPnL s"
  using assms
  by (simp add: tick_when_triggered timerFires_when_triggered runTicks_when_triggered)

theorem no_change_after_trigger_witness:
  "isFailoverTriggered
     (monitoringTick halfSource (runningWith [sampleStrategy 1 (- 1500), sampleStrategy 2 (- 600)])) \<and>
   runTicks zeroSource 4
     (monitoringTick halfSource (runningWith [sampleStrategy 1 (- 1500), sampleStrategy 2 (- 600)]))
     = monitoringTick halfSource (runningWith [sampleStrategy 1 (- 1500), sampleStrategy 2 (- 600)]) \<and>
   map pnl (strategyFleet (runTicks zeroSource 4
     (monitoringTick halfSource (runningWith [sampleStrategy 1 (- 1500), sampleStrategy 2 (- 600)]))))
     = [- 1510, - 600] \<and>
   currentPnL (runTicks zeroSource 4
     (monitoringTick halfSource (runningWith [sampleStrategy 1 (- 1500), sampleStrategy 2 (- 600)])))
     = - 2110"
  using no_change_after_trigger [of
      "monitoringTick halfSource (runningWith [sampleStrategy 1 (- 1500), sampleStrategy 2 (- 600)])"
      zeroSource 4]
  by (simp add: model_defs input_defs)

end
